theory Spec2Isabelle
  imports Complex_Main
begin

section \<open>Python values used by \<open>uavsim/map.py\<close>\<close>

text \<open>
  The exceptions that \<open>map.py\<close> raises, catches or lets through. \<open>except OSError\<close> in
  \<open>join_to_router\<close> catches \<open>OSError\<close> and its subclasses; \<open>ConnectionRefusedError\<close>,
  \<open>ConnectionResetError\<close> and \<open>socket.gaierror\<close> are subclasses of \<open>OSError\<close> in Python 3
  (\<open>socket.error\<close> is \<open>OSError\<close> itself). \<open>OtherError\<close> stands for any exception that is
  neither an \<open>IndexError\<close>, a \<open>KeyError\<close> nor an \<open>OSError\<close>.
\<close>

datatype exn =
    IndexError
  | KeyError string
  | OSError
  | ConnectionRefusedError
  | ConnectionResetError
  | gaierror
  | OtherError string

fun isinstance_OSError :: "exn \<Rightarrow> bool" where
  "isinstance_OSError OSError = True"
| "isinstance_OSError ConnectionRefusedError = True"
| "isinstance_OSError ConnectionResetError = True"
| "isinstance_OSError gaierror = True"
| "isinstance_OSError _ = False"

subsection \<open>\<open>collections.deque\<close>\<close>

text \<open>
  \<open>main\<close> creates both queues as \<open>deque(maxlen=1)\<close>. A deque is its items, left to right,
  and its \<open>maxlen\<close> (\<open>None\<close> for an unbounded deque). \<open>append\<close> adds on the right and, when
  the deque is then longer than \<open>maxlen\<close>, discards one item on the left; it never raises.
  \<open>pop\<close> removes and returns the rightmost item and raises \<open>IndexError\<close> on an empty
  deque.
\<close>

record 'a deque =
  items :: "'a list"
  maxlen :: "nat option"

definition deque_new :: "nat option \<Rightarrow> 'a deque" where
  "deque_new m = \<lparr>items = [], maxlen = m\<rparr>"

definition deque_append :: "'a deque \<Rightarrow> 'a \<Rightarrow> 'a deque" where
  "deque_append q v =
     (let xs = items q @ [v] in
      case maxlen q of
        None \<Rightarrow> q\<lparr>items := xs\<rparr>
      | Some m \<Rightarrow> if length xs > m then q\<lparr>items := tl xs\<rparr> else q\<lparr>items := xs\<rparr>)"

definition deque_pop :: "'a deque \<Rightarrow> exn + ('a \<times> 'a deque)" where
  "deque_pop q =
     (if items q = [] then Inl IndexError
      else Inr (last (items q), q\<lparr>items := butlast (items q)\<rparr>))"

text \<open>The state of a queue made by \<open>deque(maxlen=1)\<close>: at most one item.\<close>

definition slot_ok :: "'a deque \<Rightarrow> bool" where
  "slot_ok q \<longleftrightarrow> maxlen q = Some 1 \<and> length (items q) \<le> 1"


subsection \<open>Dictionaries\<close>

text \<open>A telemetry event is a \<open>dict\<close> from strings to values; \<open>d[k]\<close> raises
  \<open>KeyError(k)\<close> when \<open>k\<close> is absent.\<close>

definition getitem :: "(string \<rightharpoonup> 'v) \<Rightarrow> string \<Rightarrow> exn + 'v" where
  "getitem d k = (case d k of None \<Rightarrow> Inl (KeyError k) | Some v \<Rightarrow> Inr v)"

section \<open>The shared state\<close>

text \<open>
  What the session does that is visible outside it, in order: the calls it makes on the
  WAMP session (\<open>register\<close>, \<open>subscribe\<close>, \<open>publish\<close>) and the records it logs.
\<close>

datatype 'v event =
    Register
  | Subscribe string
  | Publish string "'v list"
  | LogError exn
  | LogWarning string

text \<open>
  The two deques are created once in \<open>main\<close> and shared by \<open>MapComponent\<close>, \<open>Locator\<close>
  and \<open>PIDManager\<close>, so they live in one state together with \<open>MapComponent.is_running\<close>
  and the trace of events. An item of \<open>queue_to_ui\<close> is the tuple
  \<open>(lat, lng, heading)\<close>; an item of \<open>queue_out\<close> is the pair of a command string and
  its tuple of arguments, kept as a list because \<open>publish(topic, *arguments)\<close> spreads it.
  Values of type \<open>'v\<close> are only passed along, never computed with.
\<close>

record 'v state =
  queue_to_ui :: "('v \<times> 'v \<times> 'v) deque"
  queue_out :: "(string \<times> 'v list) deque"
  is_running :: bool
  trace :: "'v event list"

text \<open>\<open>main\<close>: both queues are \<open>deque(maxlen=1)\<close>; \<open>MapComponent.__init__\<close> clears
  \<open>is_running\<close>.\<close>

definition main_state :: "'v state" where
  "main_state =
     \<lparr>queue_to_ui = deque_new (Some 1), queue_out = deque_new (Some 1),
      is_running = False, trace = []\<rparr>"

text \<open>
  The WAMP session of the autobahn library is outside the repository. A call on it is
  recorded in the trace, and whether it raises is decided by the library: \<open>api\<close> maps
  the trace up to and including the call to the exception raised, if any.
\<close>

type_synonym 'v session = "'v event list \<Rightarrow> exn option"

definition session_call :: "'v session \<Rightarrow> 'v event \<Rightarrow> 'v state \<Rightarrow> 'v state \<times> exn option" where
  "session_call api ev s = (let tr = trace s @ [ev] in (s\<lparr>trace := tr\<rparr>, api tr))"

definition publish :: "'v session \<Rightarrow> string \<Rightarrow> 'v list \<Rightarrow> 'v state \<Rightarrow> 'v state \<times> exn option" where
  "publish api topic args = session_call api (Publish topic args)"

definition logger_error :: "exn \<Rightarrow> 'v state \<Rightarrow> 'v state" where
  "logger_error e s = s\<lparr>trace := trace s @ [LogError e]\<rparr>"

definition logger_warning :: "string \<Rightarrow> 'v state \<Rightarrow> 'v state" where
  "logger_warning msg s = s\<lparr>trace := trace s @ [LogWarning msg]\<rparr>"

section \<open>\<open>MapComponent\<close>\<close>

text \<open>
  \<open>on_sim_telemetry\<close>: the three lookups in the order of the source, then the append;
  \<open>except KeyError\<close> logs the exception, any other exception leaves the handler. The
  result is the state after the call and the exception that left it, if any.
\<close>

definition on_sim_telemetry :: "(string \<rightharpoonup> 'v) \<Rightarrow> 'v state \<Rightarrow> 'v state \<times> exn option" where
  "on_sim_telemetry telemetry s =
     (let body =
        (case getitem telemetry ''latitude-deg'' of
           Inl e \<Rightarrow> Inl e
         | Inr lat \<Rightarrow>
             (case getitem telemetry ''longitude-deg'' of
                Inl e \<Rightarrow> Inl e
              | Inr lng \<Rightarrow>
                  (case getitem telemetry ''heading-deg'' of
                     Inl e \<Rightarrow> Inl e
                   | Inr heading \<Rightarrow>
                       Inr (s\<lparr>queue_to_ui := deque_append (queue_to_ui s) (lat, lng, heading)\<rparr>))))
      in case body of
           Inr s' \<Rightarrow> (s', None)
         | Inl (KeyError k) \<Rightarrow> (logger_error (KeyError k) s, None)
         | Inl e \<Rightarrow> (s, Some e))"

text \<open>
  The \<open>while True\<close> loop of \<open>pass_outgoing_cmd\<close>. It has no \<open>break\<close> and no \<open>return\<close>: it
  ends only by an exception, which is its result together with the state reached. This is
  the loop run with no call of the UI thread during it; \<open>pass_outgoing_cmd_loop_ui\<close> below
  is the same loop with such calls.
\<close>

function pass_outgoing_cmd_loop :: "'v session \<Rightarrow> 'v state \<Rightarrow> 'v state \<times> exn" where
  "pass_outgoing_cmd_loop api s =
     (case deque_pop (queue_out s) of
        Inl e \<Rightarrow> (s, e)
      | Inr (item, q) \<Rightarrow>
          (let s1 = s\<lparr>queue_out := q\<rparr>; cmd = fst item; arguments = snd item in
           if cmd = ''pos'' then
             (case publish api ''map.position'' arguments s1 of
                (s2, Some e) \<Rightarrow> (s2, e)
              | (s2, None) \<Rightarrow> pass_outgoing_cmd_loop api s2)
           else if cmd = ''pid'' then
             (case publish api ''map.pid'' arguments s1 of
                (s2, Some e) \<Rightarrow> (s2, e)
              | (s2, None) \<Rightarrow> pass_outgoing_cmd_loop api s2)
           else
             pass_outgoing_cmd_loop api
               (logger_warning (''Unknown command: '' @ cmd @ '', ignoring'') s1)))"
  by pat_completeness auto
termination
  by (relation "measure (\<lambda>(api, s). length (items (queue_out s)))")
     (auto simp: deque_pop_def publish_def session_call_def logger_warning_def Let_def
           split: if_splits)

declare pass_outgoing_cmd_loop.simps [simp del]

text \<open>\<open>pass_outgoing_cmd\<close>: the loop inside \<open>try\<close>, with \<open>except IndexError: pass\<close>.\<close>

definition pass_outgoing_cmd :: "'v session \<Rightarrow> 'v state \<Rightarrow> 'v state \<times> exn option" where
  "pass_outgoing_cmd api s =
     (case pass_outgoing_cmd_loop api s of
        (s', IndexError) \<Rightarrow> (s', None)
      | (s', e) \<Rightarrow> (s', Some e))"

text \<open>
  \<open>onJoin\<close>. Its loop runs for as long as \<open>is_running\<close> holds, and nothing in the source
  clears the flag, so the loop is given the telemetry events that arrive during each
  \<open>asyncio.sleep(0.1)\<close>, one list per iteration: the event loop runs
  \<open>on_sim_telemetry\<close> on each of them while \<open>onJoin\<close> is suspended. When the lists are
  used up the coroutine is still \<open>Pending\<close>.
\<close>

datatype outcome = Done | Raised exn | Pending

definition deliver :: "(string \<rightharpoonup> 'v) list \<Rightarrow> 'v state \<Rightarrow> 'v state" where
  "deliver batch s = foldl (\<lambda>s' telemetry. fst (on_sim_telemetry telemetry s')) s batch"

fun onJoin_loop :: "'v session \<Rightarrow> 'v state \<Rightarrow> (string \<rightharpoonup> 'v) list list \<Rightarrow> 'v state \<times> outcome" where
  "onJoin_loop api s [] = (s, if is_running s then Pending else Done)"
| "onJoin_loop api s (batch # batches) =
     (if is_running s then
        (case pass_outgoing_cmd api s of
           (s1, Some e) \<Rightarrow> (s1, Raised e)
         | (s1, None) \<Rightarrow> onJoin_loop api (deliver batch s1) batches)
      else (s, Done))"

definition onJoin :: "'v session \<Rightarrow> 'v state \<Rightarrow> (string \<rightharpoonup> 'v) list list \<Rightarrow> 'v state \<times> outcome" where
  "onJoin api s batches =
     (case session_call api Register s of
        (s1, Some e) \<Rightarrow> (s1, Raised e)
      | (s1, None) \<Rightarrow>
          (case session_call api (Subscribe ''sim.telemetry'') s1 of
             (s2, Some e) \<Rightarrow> (s2, Raised e)
           | (s2, None) \<Rightarrow> onJoin_loop api (s2\<lparr>is_running := True\<rparr>) batches))"

section \<open>\<open>join_to_router\<close>\<close>

text \<open>
  \<open>runner.run(component_class)\<close> belongs to autobahn: it returns or raises. \<open>run k\<close> is
  what the call made after \<open>k\<close> earlier calls does. The loop has no bound, so it is a
  partial function: \<open>None\<close> is a loop that never ends. A result is the number of calls
  made and the exception that left \<open>join_to_router\<close>, if any.
\<close>

datatype run_result = RunReturned | RunRaised exn

partial_function (option) join_to_router_loop ::
  "(nat \<Rightarrow> run_result) \<Rightarrow> bool \<Rightarrow> nat \<Rightarrow> (nat \<times> exn option) option" where
  "join_to_router_loop run rerun k =
     (if rerun then
        (case run k of
           RunReturned \<Rightarrow> join_to_router_loop run False (Suc k)
         | RunRaised e \<Rightarrow>
             if isinstance_OSError e then join_to_router_loop run True (Suc k)
             else Some (Suc k, Some e))
      else Some (k, None))"

definition join_to_router :: "(nat \<Rightarrow> run_result) \<Rightarrow> (nat \<times> exn option) option" where
  "join_to_router run = join_to_router_loop run True 0"

section \<open>The Qt objects that fill \<open>queue_out\<close>\<close>

text \<open>\<open>Locator.force_location\<close> and \<open>PIDManager.force_pid\<close>: one \<open>append\<close> each;
  \<open>append\<close> raises nothing, so the \<open>except IndexError\<close> around it is never entered.\<close>

definition force_location :: "'v \<Rightarrow> 'v \<Rightarrow> 'v state \<Rightarrow> 'v state" where
  "force_location lat lng s = s\<lparr>queue_out := deque_append (queue_out s) (''loc'', [lat, lng])\<rparr>"

definition force_pid :: "'v \<Rightarrow> 'v \<Rightarrow> 'v \<Rightarrow> 'v state \<Rightarrow> 'v state" where
  "force_pid kp ki kd s = s\<lparr>queue_out := deque_append (queue_out s) (''pid'', [kp, ki, kd])\<rparr>"

section \<open>\<open>pass_outgoing_cmd\<close> while the UI thread runs\<close>

text \<open>
  \<open>main\<close> starts \<open>run_map_ui\<close> in a second thread on the same two deques, so
  \<open>Locator.force_location\<close> and \<open>PIDManager.force_pid\<close> can be called while
  \<open>pass_outgoing_cmd\<close> is inside its loop. A call of \<open>deque.append\<close> or \<open>deque.pop\<close> is atomic,
  so what the loop sees of the other thread is the calls made between two of its \<open>pop\<close>s.
  \<open>sched\<close> lists them: its first element is the calls made after the first \<open>pop\<close> of the
  invocation and before the second, and so on; when \<open>sched\<close> is used up the UI thread makes
  no further call during the invocation. The loop itself is the one of the source.
\<close>

datatype 'v ui_call = ForceLocation 'v 'v | ForcePID 'v 'v 'v

fun run_ui_call :: "'v ui_call \<Rightarrow> 'v state \<Rightarrow> 'v state" where
  "run_ui_call (ForceLocation lat lng) s = force_location lat lng s"
| "run_ui_call (ForcePID kp ki kd) s = force_pid kp ki kd s"

definition ui_thread :: "'v ui_call list \<Rightarrow> 'v state \<Rightarrow> 'v state" where
  "ui_thread calls s = foldl (\<lambda>s' c. run_ui_call c s') s calls"

function pass_outgoing_cmd_loop_ui ::
  "'v session \<Rightarrow> 'v ui_call list list \<Rightarrow> 'v state \<Rightarrow> 'v state \<times> exn" where
  "pass_outgoing_cmd_loop_ui api sched s =
     (case deque_pop (queue_out s) of
        Inl e \<Rightarrow> (s, e)
      | Inr (item, q) \<Rightarrow>
          (let calls = (case sched of [] \<Rightarrow> [] | c # _ \<Rightarrow> c);
               s1 = ui_thread calls (s\<lparr>queue_out := q\<rparr>);
               cmd = fst item; arguments = snd item in
           if cmd = ''pos'' then
             (case publish api ''map.position'' arguments s1 of
                (s2, Some e) \<Rightarrow> (s2, e)
              | (s2, None) \<Rightarrow> pass_outgoing_cmd_loop_ui api (tl sched) s2)
           else if cmd = ''pid'' then
             (case publish api ''map.pid'' arguments s1 of
                (s2, Some e) \<Rightarrow> (s2, e)
              | (s2, None) \<Rightarrow> pass_outgoing_cmd_loop_ui api (tl sched) s2)
           else
             pass_outgoing_cmd_loop_ui api (tl sched)
               (logger_warning (''Unknown command: '' @ cmd @ '', ignoring'') s1)))"
  by pat_completeness auto
termination
  by (relation "measures [\<lambda>(api, sched, s). length sched,
                          \<lambda>(api, sched, s). length (items (queue_out s))]")
     (auto simp: deque_pop_def publish_def session_call_def logger_warning_def ui_thread_def
           Let_def split: if_splits list.splits)

declare pass_outgoing_cmd_loop_ui.simps [simp del]

definition pass_outgoing_cmd_ui ::
  "'v session \<Rightarrow> 'v ui_call list list \<Rightarrow> 'v state \<Rightarrow> 'v state \<times> exn option" where
  "pass_outgoing_cmd_ui api sched s =
     (case pass_outgoing_cmd_loop_ui api sched s of
        (s', IndexError) \<Rightarrow> (s', None)
      | (s', e) \<Rightarrow> (s', Some e))"

section \<open>The single-slot queue\<close>

lemma slot_ok_new: "slot_ok (deque_new (Some 1))"
  by (simp add: slot_ok_def deque_new_def)

lemma slot_append_items:
  "slot_ok q \<Longrightarrow> deque_append q v = q\<lparr>items := [v]\<rparr>"
  by (cases "items q") (auto simp: slot_ok_def deque_append_def Let_def)

lemma slot_ok_append: "slot_ok q \<Longrightarrow> slot_ok (deque_append q v)"
  by (simp add: slot_append_items) (simp add: slot_ok_def)

lemma slot_ok_pop: "slot_ok q \<Longrightarrow> deque_pop q = Inr (v, q') \<Longrightarrow> slot_ok q'"
  by (auto simp: slot_ok_def deque_pop_def split: if_splits)

lemma slot_fold_append:
  "slot_ok q \<Longrightarrow> vs \<noteq> [] \<Longrightarrow> foldl deque_append q vs = q\<lparr>items := [last vs]\<rparr>"
proof (induction vs arbitrary: q)
  case Nil
  then show ?case by simp
next
  case (Cons v vs)
  show ?case
  proof (cases "vs = []")
    case True
    with Cons.prems show ?thesis by (simp add: slot_append_items)
  next
    case False
    have "slot_ok (deque_append q v)"
      using Cons.prems(1) by (rule slot_ok_append)
    from Cons.IH [OF this False] False Cons.prems(1) show ?thesis
      by (simp add: slot_append_items)
  qed
qed

text \<open>
  C1 (latest wins). On a queue made by \<open>deque(maxlen=1)\<close>, after any non-empty sequence
  of \<open>append\<close> calls with no \<open>pop\<close> in between, \<open>pop\<close> returns the value appended last and
  leaves the queue empty, so that the next \<open>pop\<close> raises \<open>IndexError\<close>: no value appended
  earlier can be returned by a later \<open>pop\<close>.
\<close>

theorem slot_latest_wins:
  assumes "slot_ok q" and "vs \<noteq> []"
  shows "deque_pop (foldl deque_append q vs) = Inr (last vs, q\<lparr>items := []\<rparr>)
       \<and> deque_pop (q\<lparr>items := []\<rparr>) = Inl IndexError"
  using assms by (simp add: slot_fold_append) (simp add: deque_pop_def)

theorem slot_latest_wins_witness:
  "slot_ok (deque_new (Some 1) :: nat deque) \<and> [1, 2, 3 :: nat] \<noteq> []
   \<and> deque_pop (foldl deque_append (deque_new (Some 1)) [1, 2, 3 :: nat])
       = Inr (3, deque_new (Some 1))
   \<and> deque_pop (deque_new (Some 1) :: nat deque) = Inl IndexError"
  using slot_latest_wins [of "deque_new (Some 1) :: nat deque" "[1, 2, 3]"]
  by (simp add: slot_ok_def deque_new_def)

section \<open>Draining \<open>queue_out\<close>\<close>

lemma loop_empty:
  "items (queue_out s) = [] \<Longrightarrow> pass_outgoing_cmd_loop api s = (s, IndexError)"
  by (subst pass_outgoing_cmd_loop.simps) (simp add: deque_pop_def)

lemma loop_step:
  assumes "items (queue_out s) = xs @ [(cmd, args)]"
  shows "pass_outgoing_cmd_loop api s =
    (let s1 = s\<lparr>queue_out := (queue_out s)\<lparr>items := xs\<rparr>\<rparr> in
     if cmd = ''pos'' then
       (let s2 = s1\<lparr>trace := trace s @ [Publish ''map.position'' args]\<rparr> in
        case api (trace s2) of Some e \<Rightarrow> (s2, e) | None \<Rightarrow> pass_outgoing_cmd_loop api s2)
     else if cmd = ''pid'' then
       (let s2 = s1\<lparr>trace := trace s @ [Publish ''map.pid'' args]\<rparr> in
        case api (trace s2) of Some e \<Rightarrow> (s2, e) | None \<Rightarrow> pass_outgoing_cmd_loop api s2)
     else
       pass_outgoing_cmd_loop api
         (s1\<lparr>trace := trace s @ [LogWarning (''Unknown command: '' @ cmd @ '', ignoring'')]\<rparr>))"
  using assms
  by (subst pass_outgoing_cmd_loop.simps)
     (simp add: deque_pop_def Let_def publish_def session_call_def logger_warning_def
           split: option.splits)

lemma pass_fst: "fst (pass_outgoing_cmd api s) = fst (pass_outgoing_cmd_loop api s)"
  by (cases "pass_outgoing_cmd_loop api s"; cases "snd (pass_outgoing_cmd_loop api s)")
     (simp_all add: pass_outgoing_cmd_def)

lemma pass_snd:
  "snd (pass_outgoing_cmd api s) =
     (if snd (pass_outgoing_cmd_loop api s) = IndexError then None
      else Some (snd (pass_outgoing_cmd_loop api s)))"
  by (cases "pass_outgoing_cmd_loop api s"; cases "snd (pass_outgoing_cmd_loop api s)")
     (simp_all add: pass_outgoing_cmd_def)

lemma pass_empty:
  "items (queue_out s) = [] \<Longrightarrow> pass_outgoing_cmd api s = (s, None)"
  by (simp add: pass_outgoing_cmd_def loop_empty)

lemma pass_single_fst:
  assumes "items (queue_out s) = [(cmd, args)]"
  shows "fst (pass_outgoing_cmd api s) =
     s\<lparr>queue_out := (queue_out s)\<lparr>items := []\<rparr>,
       trace := trace s @
         [if cmd = ''pos'' then Publish ''map.position'' args
          else if cmd = ''pid'' then Publish ''map.pid'' args
          else LogWarning (''Unknown command: '' @ cmd @ '', ignoring'')]\<rparr>"
  using assms loop_step [of s "[]" cmd args api]
  by (simp add: pass_fst Let_def loop_empty split: option.splits)

lemma pass_single_unknown:
  assumes "items (queue_out s) = [(cmd, args)]" and "cmd \<noteq> ''pos''" and "cmd \<noteq> ''pid''"
  shows "pass_outgoing_cmd api s =
     (s\<lparr>queue_out := (queue_out s)\<lparr>items := []\<rparr>,
        trace := trace s @ [LogWarning (''Unknown command: '' @ cmd @ '', ignoring'')]\<rparr>,
      None)"
  using assms loop_step [of s "[]" cmd args api]
  by (simp add: pass_outgoing_cmd_def Let_def loop_empty)

lemma slot_cases:
  "slot_ok q \<Longrightarrow> items q = [] \<or> (\<exists>c. items q = [c])"
  by (cases "items q") (auto simp: slot_ok_def)

text \<open>
  The loop goes on until \<open>pop\<close> raises. On a deque that holds two commands one call
  handles both, the rightmost first: the loop itself sets no bound on the commands handled
  by one call.
\<close>

lemma pass_outgoing_cmd_drains_longer_deque:
  "fst (pass_outgoing_cmd (\<lambda>tr. None)
     ((main_state :: real state)\<lparr>queue_out := \<lparr>items = [(''pos'', [1, 2]), (''pid'', [3])], maxlen = None\<rparr>\<rparr>))
   = main_state\<lparr>queue_out := \<lparr>items = [], maxlen = None\<rparr>,
       trace := [Publish ''map.pid'' [3], Publish ''map.position'' [1, 2]]\<rparr>"
proof -
  let ?s = "(main_state :: real state)\<lparr>queue_out := \<lparr>items = [(''pos'', [1, 2]), (''pid'', [3])], maxlen = None\<rparr>\<rparr>"
  let ?s1 = "(main_state :: real state)\<lparr>queue_out := \<lparr>items = [(''pos'', [1, 2])], maxlen = None\<rparr>,
               trace := [Publish ''map.pid'' [3]]\<rparr>"
  let ?s2 = "(main_state :: real state)\<lparr>queue_out := \<lparr>items = [], maxlen = None\<rparr>,
               trace := [Publish ''map.pid'' [3], Publish ''map.position'' [1, 2]]\<rparr>"
  have a: "items (queue_out ?s) = [(''pos'', [1, 2])] @ [(''pid'', [3])]" by simp
  have b: "items (queue_out ?s1) = [] @ [(''pos'', [1, 2])]" by simp
  have "pass_outgoing_cmd_loop (\<lambda>tr. None) ?s = pass_outgoing_cmd_loop (\<lambda>tr. None) ?s1"
    by (subst loop_step [OF a]) (simp add: main_state_def)
  also have "\<dots> = pass_outgoing_cmd_loop (\<lambda>tr. None) ?s2"
    by (subst loop_step [OF b]) (simp add: main_state_def)
  also have "\<dots> = (?s2, IndexError)"
    by (simp add: loop_empty)
  finally show ?thesis by (simp add: pass_fst)
qed

lemma pass_alone_one_command:
  assumes "slot_ok (queue_out s)"
  shows "(items (queue_out s) = [] \<and> pass_outgoing_cmd api s = (s, None))
       \<or> (\<exists>cmd args. items (queue_out s) = [(cmd, args)]
            \<and> fst (pass_outgoing_cmd api s) =
                s\<lparr>queue_out := (queue_out s)\<lparr>items := []\<rparr>,
                  trace := trace s @
                    [if cmd = ''pos'' then Publish ''map.position'' args
                     else if cmd = ''pid'' then Publish ''map.pid'' args
                     else LogWarning (''Unknown command: '' @ cmd @ '', ignoring'')]\<rparr>)"
proof -
  from slot_cases [OF assms] show ?thesis
  proof
    assume "items (queue_out s) = []"
    then show ?thesis by (simp add: pass_empty)
  next
    assume "\<exists>c. items (queue_out s) = [c]"
    then obtain cmd args where c: "items (queue_out s) = [(cmd, args)]" by force
    from pass_single_fst [OF c] c show ?thesis by blast
  qed
qed

subsection \<open>With the UI thread\<close>

text \<open>
  When the UI thread makes no call during the invocation, the loop with the UI thread is the
  loop of \<open>pass_outgoing_cmd\<close> alone.
\<close>

lemma ui_loop_empty:
  "items (queue_out s) = [] \<Longrightarrow> pass_outgoing_cmd_loop_ui api sched s = (s, IndexError)"
  by (subst pass_outgoing_cmd_loop_ui.simps) (simp add: deque_pop_def)

lemma ui_loop_step:
  assumes "items (queue_out s) = xs @ [(cmd, args)]"
  shows "pass_outgoing_cmd_loop_ui api sched s =
    (let s1 = ui_thread (case sched of [] \<Rightarrow> [] | c # _ \<Rightarrow> c)
                (s\<lparr>queue_out := (queue_out s)\<lparr>items := xs\<rparr>\<rparr>) in
     if cmd = ''pos'' then
       (let s2 = s1\<lparr>trace := trace s1 @ [Publish ''map.position'' args]\<rparr> in
        case api (trace s2) of Some e \<Rightarrow> (s2, e)
        | None \<Rightarrow> pass_outgoing_cmd_loop_ui api (tl sched) s2)
     else if cmd = ''pid'' then
       (let s2 = s1\<lparr>trace := trace s1 @ [Publish ''map.pid'' args]\<rparr> in
        case api (trace s2) of Some e \<Rightarrow> (s2, e)
        | None \<Rightarrow> pass_outgoing_cmd_loop_ui api (tl sched) s2)
     else
       pass_outgoing_cmd_loop_ui api (tl sched)
         (s1\<lparr>trace := trace s1 @ [LogWarning (''Unknown command: '' @ cmd @ '', ignoring'')]\<rparr>))"
  using assms
  by (subst pass_outgoing_cmd_loop_ui.simps)
     (simp add: deque_pop_def Let_def publish_def session_call_def logger_warning_def
           split: option.splits)

lemma ui_loop_idle:
  "concat sched = [] \<Longrightarrow>
   pass_outgoing_cmd_loop_ui api sched s = pass_outgoing_cmd_loop api s"
proof (induction "items (queue_out s)" arbitrary: s sched rule: rev_induct)
  case Nil
  then show ?case by (simp add: ui_loop_empty loop_empty)
next
  case (snoc x xs)
  obtain cmd args where x: "x = (cmd, args)" by (cases x)
  have it: "items (queue_out s) = xs @ [(cmd, args)]"
    using snoc.hyps(2) x by simp
  have calls: "(case sched of [] \<Rightarrow> [] | c # _ \<Rightarrow> c) = []"
    using snoc.prems by (cases sched) simp_all
  have rest: "concat (tl sched) = []"
    using snoc.prems by (cases sched) simp_all
  have ih: "\<And>s'. items (queue_out s') = xs \<Longrightarrow>
              pass_outgoing_cmd_loop_ui api (tl sched) s' = pass_outgoing_cmd_loop api s'"
    using snoc.hyps(1) rest by simp
  show ?case
    by (simp add: ui_loop_step [OF it] loop_step [OF it] calls ui_thread_def Let_def ih
             split: option.splits)
qed

lemma pass_ui_idle:
  "concat sched = [] \<Longrightarrow> pass_outgoing_cmd_ui api sched s = pass_outgoing_cmd api s"
  by (simp add: pass_outgoing_cmd_ui_def pass_outgoing_cmd_def ui_loop_idle)

text \<open>
  C2, as stated, fails. \<open>queue_out\<close> is a \<open>deque(maxlen=1)\<close> holding the one command
  \<open>('pid', (0.5, 0.1, 0.05))\<close> when \<open>pass_outgoing_cmd\<close> is called; the UI thread calls
  \<open>force_pid(1, 2, 3)\<close> after the first \<open>pop\<close>. The loop goes on to a second \<open>pop\<close>, which
  finds that command: the one invocation makes two \<open>publish\<close> calls.
\<close>

theorem pass_outgoing_cmd_two_commands_counterexample:
  "slot_ok (queue_out (force_pid 0.5 0.1 0.05 (main_state :: real state)))
   \<and> items (queue_out (force_pid 0.5 0.1 0.05 (main_state :: real state)))
       = [(''pid'', [0.5, 0.1, 0.05])]
   \<and> pass_outgoing_cmd_ui (\<lambda>tr. None) [[ForcePID 1 2 3]]
         (force_pid 0.5 0.1 0.05 (main_state :: real state))
       = (main_state\<lparr>trace := [Publish ''map.pid'' [0.5, 0.1, 0.05],
                                 Publish ''map.pid'' [1, 2, 3]]\<rparr>, None)"
proof -
  let ?s = "force_pid 0.5 0.1 0.05 (main_state :: real state)"
  let ?s1 = "(main_state :: real state)
               \<lparr>queue_out := \<lparr>items = [(''pid'', [1, 2, 3])], maxlen = Some 1\<rparr>,
                trace := [Publish ''map.pid'' [0.5, 0.1, 0.05]]\<rparr>"
  let ?s2 = "(main_state :: real state)
               \<lparr>trace := [Publish ''map.pid'' [0.5, 0.1, 0.05], Publish ''map.pid'' [1, 2, 3]]\<rparr>"
  have ok: "slot_ok (queue_out ?s)"
    by (simp add: force_pid_def main_state_def deque_new_def deque_append_def slot_ok_def)
  have a: "items (queue_out ?s) = [] @ [(''pid'', [0.5, 0.1, 0.05])]"
    by (simp add: force_pid_def main_state_def deque_new_def deque_append_def)
  have b: "items (queue_out ?s1) = [] @ [(''pid'', [1, 2, 3])]" by simp
  have "pass_outgoing_cmd_loop_ui (\<lambda>tr. None) [[ForcePID 1 2 3]] ?s
          = pass_outgoing_cmd_loop_ui (\<lambda>tr. None) [] ?s1"
    by (subst ui_loop_step [OF a])
       (simp add: ui_thread_def force_pid_def main_state_def deque_new_def deque_append_def)
  also have "\<dots> = pass_outgoing_cmd_loop_ui (\<lambda>tr. None) [] ?s2"
    by (subst ui_loop_step [OF b])
       (simp add: ui_thread_def main_state_def deque_new_def)
  also have "\<dots> = (?s2, IndexError)"
    by (simp add: ui_loop_empty main_state_def deque_new_def)
  finally have "pass_outgoing_cmd_ui (\<lambda>tr. None) [[ForcePID 1 2 3]] ?s = (?s2, None)"
    by (simp add: pass_outgoing_cmd_ui_def)
  with ok a show ?thesis by simp
qed

text \<open>
  C2, amended. On a \<open>queue_out\<close> made by \<open>deque(maxlen=1)\<close>, an invocation of
  \<open>pass_outgoing_cmd\<close> during which the UI thread puts no command into the queue either
  finds the queue empty and changes nothing, or finds one command, removes it and handles
  exactly that command: one \<open>publish\<close> call or one warning is added to the trace and the
  queue is empty afterwards.
\<close>

theorem pass_outgoing_cmd_one_command_ui_idle:
  assumes "slot_ok (queue_out s)" and "concat sched = []"
  shows "(items (queue_out s) = [] \<and> pass_outgoing_cmd_ui api sched s = (s, None))
       \<or> (\<exists>cmd args. items (queue_out s) = [(cmd, args)]
            \<and> fst (pass_outgoing_cmd_ui api sched s) =
                s\<lparr>queue_out := (queue_out s)\<lparr>items := []\<rparr>,
                  trace := trace s @
                    [if cmd = ''pos'' then Publish ''map.position'' args
                     else if cmd = ''pid'' then Publish ''map.pid'' args
                     else LogWarning (''Unknown command: '' @ cmd @ '', ignoring'')]\<rparr>)"
  using pass_alone_one_command [OF assms(1), of api]
  by (simp add: pass_ui_idle [OF assms(2)])

theorem pass_outgoing_cmd_one_command_ui_idle_witness:
  "slot_ok (queue_out (force_pid 0.5 0.1 0.05 (main_state :: real state)))
   \<and> concat [[], []] = ([] :: real ui_call list)
   \<and> fst (pass_outgoing_cmd_ui (\<lambda>tr. None) [[], []]
            (force_pid 0.5 0.1 0.05 (main_state :: real state)))
       = main_state\<lparr>trace := [Publish ''map.pid'' [0.5, 0.1, 0.05]]\<rparr>"
  using pass_outgoing_cmd_one_command_ui_idle
          [of "force_pid 0.5 0.1 0.05 (main_state :: real state)" "[[], []]" "\<lambda>tr. None"]
  by (simp add: force_pid_def main_state_def deque_new_def deque_append_def slot_ok_def)

text \<open>
  C6. When \<open>queue_out\<close> holds the one command \<open>('pid', args)\<close>, one call of
  \<open>pass_outgoing_cmd\<close> makes exactly one \<open>publish\<close> call, \<open>publish('map.pid', *args)\<close>, and
  leaves \<open>queue_out\<close> empty; the instance after it is the command
  \<open>('pid', (0.5, 0.1, 0.05))\<close>.
\<close>

theorem pid_command_published:
  assumes "items (queue_out s) = [(''pid'', args)]"
  shows "fst (pass_outgoing_cmd api s) =
           s\<lparr>queue_out := (queue_out s)\<lparr>items := []\<rparr>,
             trace := trace s @ [Publish ''map.pid'' args]\<rparr>
       \<and> items (queue_out (fst (pass_outgoing_cmd api s))) = []"
  using pass_single_fst [OF assms, of api] by simp

theorem pid_command_published_witness:
  "items (queue_out (force_pid 0.5 0.1 0.05 (main_state :: real state)))
     = [(''pid'', [0.5, 0.1, 0.05])]
   \<and> trace (fst (pass_outgoing_cmd (\<lambda>tr. None) (force_pid 0.5 0.1 0.05 (main_state :: real state))))
       = [Publish ''map.pid'' [0.5, 0.1, 0.05]]
   \<and> items (queue_out (fst (pass_outgoing_cmd (\<lambda>tr. None)
        (force_pid 0.5 0.1 0.05 (main_state :: real state))))) = []"
proof -
  have h: "items (queue_out (force_pid 0.5 0.1 0.05 (main_state :: real state)))
             = [(''pid'', [0.5, 0.1, 0.05])]"
    by (simp add: force_pid_def main_state_def deque_new_def deque_append_def)
  from pid_command_published [OF h, of "\<lambda>tr. None"] h show ?thesis
    by (simp add: force_pid_def main_state_def)
qed

text \<open>
  C7. When \<open>queue_out\<close> holds one command whose string is neither \<open>'pos'\<close> nor \<open>'pid'\<close>,
  one call of \<open>pass_outgoing_cmd\<close> makes no \<open>publish\<close> call, logs one warning, raises
  nothing and leaves \<open>queue_out\<close> empty.
\<close>

theorem unknown_command_discarded:
  assumes "items (queue_out s) = [(cmd, args)]" and "cmd \<noteq> ''pos''" and "cmd \<noteq> ''pid''"
  shows "pass_outgoing_cmd api s =
     (s\<lparr>queue_out := (queue_out s)\<lparr>items := []\<rparr>,
        trace := trace s @ [LogWarning (''Unknown command: '' @ cmd @ '', ignoring'')]\<rparr>,
      None)"
  using assms by (rule pass_single_unknown)

theorem unknown_command_discarded_witness:
  "pass_outgoing_cmd (\<lambda>tr. None)
     ((main_state :: real state)\<lparr>queue_out := \<lparr>items = [(''xyz'', [1, 2])], maxlen = Some 1\<rparr>\<rparr>)
   = (main_state\<lparr>trace := [LogWarning ''Unknown command: xyz, ignoring'']\<rparr>, None)"
  using unknown_command_discarded
          [of "(main_state :: real state)\<lparr>queue_out := \<lparr>items = [(''xyz'', [1, 2])], maxlen = Some 1\<rparr>\<rparr>"
              "''xyz''" "[1, 2]" "\<lambda>tr. None"]
  by (simp add: main_state_def deque_new_def)

text \<open>
  C8. \<open>pop\<close> on an empty \<open>queue_out\<close> raises \<open>IndexError\<close> inside \<open>pass_outgoing_cmd\<close>, which
  catches it: the call returns normally with the state unchanged (no \<open>publish\<close>, nothing
  logged). Whatever the state \<open>s'\<close> of the queues and whatever the session does, no
  \<open>IndexError\<close> leaves \<open>pass_outgoing_cmd\<close>.
\<close>

theorem empty_slot_is_no_error:
  assumes "items (queue_out s) = []"
  shows "deque_pop (queue_out s) = Inl IndexError
       \<and> pass_outgoing_cmd api s = (s, None)
       \<and> snd (pass_outgoing_cmd api' s') \<noteq> Some IndexError"
  using assms by (simp add: deque_pop_def pass_empty pass_snd)

theorem empty_slot_is_no_error_witness:
  "items (queue_out (main_state :: real state)) = []
   \<and> deque_pop (queue_out (main_state :: real state)) = Inl IndexError
   \<and> pass_outgoing_cmd (\<lambda>tr. None) (main_state :: real state) = (main_state, None)
   \<and> snd (pass_outgoing_cmd (\<lambda>tr. Some IndexError)
            (force_pid 0.5 0.1 0.05 (main_state :: real state))) \<noteq> Some IndexError"
proof -
  have h: "items (queue_out (main_state :: real state)) = []"
    by (simp add: main_state_def deque_new_def)
  from empty_slot_is_no_error
         [OF h, of "\<lambda>tr. None" "\<lambda>tr. Some IndexError"
            "force_pid 0.5 0.1 0.05 (main_state :: real state)"]
  show ?thesis using h by simp
qed

text \<open>
  C10. \<open>Locator.force_location\<close> appends the command \<open>('loc', (lat, lng))\<close>. The next call
  of \<open>pass_outgoing_cmd\<close> removes it, logs \<open>Unknown command: loc, ignoring\<close> and makes no
  \<open>publish\<close> call.
\<close>

theorem force_location_never_published:
  assumes "slot_ok (queue_out s)"
  shows "pass_outgoing_cmd api (force_location lat lng s) =
     (s\<lparr>queue_out := (queue_out s)\<lparr>items := []\<rparr>,
        trace := trace s @ [LogWarning ''Unknown command: loc, ignoring'']\<rparr>,
      None)"
proof -
  have "items (queue_out (force_location lat lng s)) = [(''loc'', [lat, lng])]"
    using assms by (simp add: force_location_def slot_append_items)
  from pass_single_unknown [OF this, of api] show ?thesis
    using assms by (simp add: force_location_def slot_append_items)
qed

theorem force_location_never_published_witness:
  "slot_ok (queue_out (main_state :: string state))
   \<and> pass_outgoing_cmd (\<lambda>tr. None) (force_location ''47.6'' ''-122.3'' main_state)
       = (main_state\<lparr>trace := [LogWarning ''Unknown command: loc, ignoring'']\<rparr>, None)"
  using force_location_never_published [of "main_state :: string state" "\<lambda>tr. None" "''47.6''" "''-122.3''"]
  by (simp add: main_state_def deque_new_def slot_ok_def)

section \<open>Reconnecting\<close>

lemma join_loop_stop: "join_to_router_loop run False k = Some (k, None)"
  by (subst join_to_router_loop.simps) simp

lemma join_loop_returned:
  "run k = RunReturned \<Longrightarrow> join_to_router_loop run True k = Some (Suc k, None)"
  by (subst join_to_router_loop.simps) (simp add: join_loop_stop)

lemma join_loop_oserror:
  "run k = RunRaised e \<Longrightarrow> isinstance_OSError e \<Longrightarrow>
   join_to_router_loop run True k = join_to_router_loop run True (Suc k)"
  by (subst join_to_router_loop.simps) simp

lemma join_loop_crash:
  "run k = RunRaised e \<Longrightarrow> \<not> isinstance_OSError e \<Longrightarrow>
   join_to_router_loop run True k = Some (Suc k, Some e)"
  by (subst join_to_router_loop.simps) simp

lemma join_loop_retries:
  assumes "\<forall>i<n. \<exists>e. run (k + i) = RunRaised e \<and> isinstance_OSError e"
    and "run (k + n) = RunReturned"
  shows "join_to_router_loop run True k = Some (Suc (k + n), None)"
  using assms
proof (induction n arbitrary: k)
  case 0
  then show ?case by (simp add: join_loop_returned)
next
  case (Suc n)
  from Suc.prems(1) obtain e where e: "run k = RunRaised e" "isinstance_OSError e"
    by force
  have "\<forall>i<n. \<exists>e. run (Suc k + i) = RunRaised e \<and> isinstance_OSError e"
    using Suc.prems(1) by (metis Suc_less_eq add_Suc_shift)
  moreover have "run (Suc k + n) = RunReturned"
    using Suc.prems(2) by simp
  ultimately have "join_to_router_loop run True (Suc k) = Some (Suc (Suc k + n), None)"
    by (rule Suc.IH)
  with e show ?case by (simp add: join_loop_oserror)
qed

text \<open>
  C3. When the first \<open>n\<close> calls of \<open>runner.run\<close> each raise an \<open>OSError\<close> (connection
  refused, name resolution, socket error) and the next call returns, \<open>join_to_router\<close>
  returns normally after exactly \<open>n + 1\<close> calls, for every \<open>n\<close>: each failure is followed at
  once by the next call, and no call follows the one that returned.
\<close>

theorem join_to_router_retries_until_success:
  assumes "\<forall>i<n. \<exists>e. run i = RunRaised e \<and> isinstance_OSError e"
    and "run n = RunReturned"
  shows "join_to_router run = Some (Suc n, None)"
  using join_loop_retries [of n run 0] assms by (simp add: join_to_router_def)

theorem join_to_router_retries_until_success_witness:
  "join_to_router (\<lambda>k. if k < 3 then RunRaised ConnectionRefusedError else RunReturned)
     = Some (4, None)"
  using join_to_router_retries_until_success
          [of 3 "\<lambda>k. if k < 3 then RunRaised ConnectionRefusedError else RunReturned"]
  by simp

section \<open>Telemetry\<close>

lemma telemetry_ok:
  assumes "telemetry ''latitude-deg'' = Some lat"
    and "telemetry ''longitude-deg'' = Some lng"
    and "telemetry ''heading-deg'' = Some heading"
  shows "on_sim_telemetry telemetry s =
           (s\<lparr>queue_to_ui := deque_append (queue_to_ui s) (lat, lng, heading)\<rparr>, None)"
  using assms by (simp add: on_sim_telemetry_def getitem_def)

lemma telemetry_missing:
  assumes "telemetry ''latitude-deg'' = None \<or> telemetry ''longitude-deg'' = None
         \<or> telemetry ''heading-deg'' = None"
  shows "on_sim_telemetry telemetry s =
           (s\<lparr>trace := trace s @
               [LogError (KeyError
                  (if telemetry ''latitude-deg'' = None then ''latitude-deg''
                   else if telemetry ''longitude-deg'' = None then ''longitude-deg''
                   else ''heading-deg''))]\<rparr>, None)"
  using assms
  by (auto simp: on_sim_telemetry_def getitem_def logger_error_def split: option.splits)

text \<open>
  C4. When the telemetry event lacks one of \<open>latitude-deg\<close>, \<open>longitude-deg\<close>,
  \<open>heading-deg\<close>, \<open>on_sim_telemetry\<close> does not touch \<open>queue_to_ui\<close>, whatever it holds: the
  only change of the state is the logged \<open>KeyError\<close> of the first missing key, and no
  exception leaves the handler.
\<close>

theorem malformed_telemetry_leaves_slot:
  assumes "telemetry ''latitude-deg'' = None \<or> telemetry ''longitude-deg'' = None
         \<or> telemetry ''heading-deg'' = None"
  shows "on_sim_telemetry telemetry s =
           (s\<lparr>trace := trace s @
               [LogError (KeyError
                  (if telemetry ''latitude-deg'' = None then ''latitude-deg''
                   else if telemetry ''longitude-deg'' = None then ''longitude-deg''
                   else ''heading-deg''))]\<rparr>, None)
       \<and> queue_to_ui (fst (on_sim_telemetry telemetry s)) = queue_to_ui s"
  using telemetry_missing [OF assms, of s] by simp

theorem malformed_telemetry_leaves_slot_witness:
  "on_sim_telemetry [''latitude-deg'' \<mapsto> 47.6, ''longitude-deg'' \<mapsto> - 122.3]
     ((main_state :: real state)\<lparr>queue_to_ui := \<lparr>items = [(1, 2, 3)], maxlen = Some 1\<rparr>\<rparr>)
   = ((main_state :: real state)\<lparr>queue_to_ui := \<lparr>items = [(1, 2, 3)], maxlen = Some 1\<rparr>,
        trace := [LogError (KeyError ''heading-deg'')]\<rparr>, None)"
proof -
  let ?t = "[''latitude-deg'' \<mapsto> 47.6 :: real, ''longitude-deg'' \<mapsto> - 122.3]"
  let ?s = "(main_state :: real state)\<lparr>queue_to_ui := \<lparr>items = [(1, 2, 3)], maxlen = Some 1\<rparr>\<rparr>"
  have h: "?t ''latitude-deg'' = None \<or> ?t ''longitude-deg'' = None \<or> ?t ''heading-deg'' = None"
    by simp
  have k: "(if ?t ''latitude-deg'' = None then ''latitude-deg''
            else if ?t ''longitude-deg'' = None then ''longitude-deg''
            else ''heading-deg'') = ''heading-deg''"
    by simp
  from malformed_telemetry_leaves_slot [OF h, of ?s]
  have e: "on_sim_telemetry ?t ?s =
             (?s\<lparr>trace := trace ?s @
                 [LogError (KeyError
                    (if ?t ''latitude-deg'' = None then ''latitude-deg''
                     else if ?t ''longitude-deg'' = None then ''longitude-deg''
                     else ''heading-deg''))]\<rparr>, None)"
    by (rule conjunct1)
  show ?thesis unfolding e k by (simp add: main_state_def)
qed

text \<open>
  C5. When the telemetry event has the three keys, \<open>on_sim_telemetry\<close> raises nothing and
  the next \<open>pop\<close> on \<open>queue_to_ui\<close> returns the tuple \<open>(lat, lng, heading)\<close> of their values,
  in this order; the instance after it is the event
  \<open>{latitude-deg: 47.6, longitude-deg: -122.3, heading-deg: 90.0}\<close>.
\<close>

theorem telemetry_reaches_slot:
  assumes "telemetry ''latitude-deg'' = Some lat"
    and "telemetry ''longitude-deg'' = Some lng"
    and "telemetry ''heading-deg'' = Some heading"
    and "slot_ok (queue_to_ui s)"
  shows "on_sim_telemetry telemetry s =
           (s\<lparr>queue_to_ui := (queue_to_ui s)\<lparr>items := [(lat, lng, heading)]\<rparr>\<rparr>, None)
       \<and> deque_pop (queue_to_ui (fst (on_sim_telemetry telemetry s)))
           = Inr ((lat, lng, heading), (queue_to_ui s)\<lparr>items := []\<rparr>)"
  using assms by (simp add: telemetry_ok slot_append_items deque_pop_def)

theorem telemetry_reaches_slot_witness:
  "deque_pop (queue_to_ui (fst (on_sim_telemetry
      [''latitude-deg'' \<mapsto> 47.6, ''longitude-deg'' \<mapsto> - 122.3, ''heading-deg'' \<mapsto> 90.0]
      (main_state :: real state))))
   = Inr ((47.6, - 122.3, 90.0), deque_new (Some 1))"
proof -
  let ?t = "[''latitude-deg'' \<mapsto> 47.6 :: real, ''longitude-deg'' \<mapsto> - 122.3,
             ''heading-deg'' \<mapsto> 90.0]"
  have h1: "?t ''latitude-deg'' = Some 47.6" by simp
  have h2: "?t ''longitude-deg'' = Some (- 122.3)" by simp
  have h3: "?t ''heading-deg'' = Some 90.0" by simp
  have h4: "slot_ok (queue_to_ui (main_state :: real state))"
    by (simp add: main_state_def deque_new_def slot_ok_def)
  from telemetry_reaches_slot [OF h1 h2 h3 h4]
  have "deque_pop (queue_to_ui (fst (on_sim_telemetry ?t main_state)))
          = Inr ((47.6, - 122.3, 90.0), (queue_to_ui (main_state :: real state))\<lparr>items := []\<rparr>)"
    by (rule conjunct2)
  then show ?thesis by (simp add: main_state_def deque_new_def)
qed

section \<open>Which queue the session touches\<close>

text \<open>
  The lemmas below run an operation of \<open>MapComponent\<close> from the state \<open>s\<close> with any content
  \<open>q\<close> put in place of \<open>queue_to_ui\<close>. The result is the same for every \<open>q\<close> except in
  \<open>queue_to_ui\<close> itself, which is \<open>q\<close> after some \<open>append\<close> calls; \<open>queue_out\<close> keeps a prefix
  of its items, which is what \<open>pop\<close> calls leave of it.
\<close>


lemma loop_frame:
  "\<exists>k tr e. \<forall>q. pass_outgoing_cmd_loop api (s\<lparr>queue_to_ui := q\<rparr>) =
     (s\<lparr>queue_to_ui := q,
        queue_out := (queue_out s)\<lparr>items := take k (items (queue_out s))\<rparr>,
        trace := tr\<rparr>, e)"
proof (induction "items (queue_out s)" arbitrary: s rule: rev_induct)
  case Nil
  then have "\<forall>q. pass_outgoing_cmd_loop api (s\<lparr>queue_to_ui := q\<rparr>) =
     (s\<lparr>queue_to_ui := q,
        queue_out := (queue_out s)\<lparr>items := take (length (items (queue_out s))) (items (queue_out s))\<rparr>,
        trace := trace s\<rparr>, IndexError)"
    by (simp add: loop_empty)
  then show ?case by blast
next
  case (snoc x xs)
  obtain cmd args where x: "x = (cmd, args)" by (cases x)
  have it: "items (queue_out s) = xs @ [(cmd, args)]"
    using snoc.hyps(2) x by simp
  have step: "\<And>ev. \<exists>k tr e. \<forall>q. pass_outgoing_cmd_loop api
                 (s\<lparr>queue_to_ui := q, queue_out := (queue_out s)\<lparr>items := xs\<rparr>,
                    trace := trace s @ [ev]\<rparr>) =
               (s\<lparr>queue_to_ui := q,
                  queue_out := (queue_out s)\<lparr>items := take k (items (queue_out s))\<rparr>,
                  trace := tr\<rparr>, e)"
  proof -
    fix ev
    let ?s2 = "s\<lparr>queue_out := (queue_out s)\<lparr>items := xs\<rparr>, trace := trace s @ [ev]\<rparr>"
    have "xs = items (queue_out ?s2)" by simp
    from snoc.hyps(1) [OF this] obtain k tr e where
      ih: "\<And>q. pass_outgoing_cmd_loop api (?s2\<lparr>queue_to_ui := q\<rparr>) =
        (?s2\<lparr>queue_to_ui := q,
           queue_out := (queue_out ?s2)\<lparr>items := take k (items (queue_out ?s2))\<rparr>,
           trace := tr\<rparr>, e)"
      by blast
    have tk: "take k xs = take (min k (length xs)) (items (queue_out s))"
      using it by (cases "k \<le> length xs") (simp_all add: min_def)
    have "\<forall>q. pass_outgoing_cmd_loop api
                 (s\<lparr>queue_to_ui := q, queue_out := (queue_out s)\<lparr>items := xs\<rparr>,
                    trace := trace s @ [ev]\<rparr>) =
               (s\<lparr>queue_to_ui := q,
                  queue_out := (queue_out s)\<lparr>items := take (min k (length xs)) (items (queue_out s))\<rparr>,
                  trace := tr\<rparr>, e)"
    proof
      fix q
      have eq: "s\<lparr>queue_to_ui := q, queue_out := (queue_out s)\<lparr>items := xs\<rparr>,
                  trace := trace s @ [ev]\<rparr> = ?s2\<lparr>queue_to_ui := q\<rparr>"
        by simp
      show "pass_outgoing_cmd_loop api
                 (s\<lparr>queue_to_ui := q, queue_out := (queue_out s)\<lparr>items := xs\<rparr>,
                    trace := trace s @ [ev]\<rparr>) =
               (s\<lparr>queue_to_ui := q,
                  queue_out := (queue_out s)\<lparr>items := take (min k (length xs)) (items (queue_out s))\<rparr>,
                  trace := tr\<rparr>, e)"
        unfolding eq ih using tk by simp
    qed
    then show "\<exists>k tr e. \<forall>q. pass_outgoing_cmd_loop api
                 (s\<lparr>queue_to_ui := q, queue_out := (queue_out s)\<lparr>items := xs\<rparr>,
                    trace := trace s @ [ev]\<rparr>) =
               (s\<lparr>queue_to_ui := q,
                  queue_out := (queue_out s)\<lparr>items := take k (items (queue_out s))\<rparr>,
                  trace := tr\<rparr>, e)"
      by blast
  qed
  have unfold: "\<And>q. pass_outgoing_cmd_loop api (s\<lparr>queue_to_ui := q\<rparr>) =
    (if cmd = ''pos'' then
       (case api (trace s @ [Publish ''map.position'' args]) of
          Some e \<Rightarrow> (s\<lparr>queue_to_ui := q,
                        queue_out := (queue_out s)\<lparr>items := take (length xs) (items (queue_out s))\<rparr>,
                        trace := trace s @ [Publish ''map.position'' args]\<rparr>, e)
        | None \<Rightarrow> pass_outgoing_cmd_loop api
                    (s\<lparr>queue_to_ui := q, queue_out := (queue_out s)\<lparr>items := xs\<rparr>,
                       trace := trace s @ [Publish ''map.position'' args]\<rparr>))
     else if cmd = ''pid'' then
       (case api (trace s @ [Publish ''map.pid'' args]) of
          Some e \<Rightarrow> (s\<lparr>queue_to_ui := q,
                        queue_out := (queue_out s)\<lparr>items := take (length xs) (items (queue_out s))\<rparr>,
                        trace := trace s @ [Publish ''map.pid'' args]\<rparr>, e)
        | None \<Rightarrow> pass_outgoing_cmd_loop api
                    (s\<lparr>queue_to_ui := q, queue_out := (queue_out s)\<lparr>items := xs\<rparr>,
                       trace := trace s @ [Publish ''map.pid'' args]\<rparr>))
     else pass_outgoing_cmd_loop api
            (s\<lparr>queue_to_ui := q, queue_out := (queue_out s)\<lparr>items := xs\<rparr>,
               trace := trace s @ [LogWarning (''Unknown command: '' @ cmd @ '', ignoring'')]\<rparr>))"
  proof -
    fix q
    have "items (queue_out (s\<lparr>queue_to_ui := q\<rparr>)) = xs @ [(cmd, args)]"
      using it by simp
    from loop_step [OF this, of api] show "?thesis q"
      using it by (simp add: Let_def split: option.splits)
  qed
  show ?case
  proof (cases "cmd = ''pos''")
    case True
    show ?thesis
    proof (cases "api (trace s @ [Publish ''map.position'' args])")
      case None
      with True unfold step [of "Publish ''map.position'' args"] show ?thesis by simp
    next
      case (Some e)
      with True unfold
      have "\<forall>q. pass_outgoing_cmd_loop api (s\<lparr>queue_to_ui := q\<rparr>) =
              (s\<lparr>queue_to_ui := q,
                 queue_out := (queue_out s)\<lparr>items := take (length xs) (items (queue_out s))\<rparr>,
                 trace := trace s @ [Publish ''map.position'' args]\<rparr>, e)"
        by simp
      then show ?thesis by blast
    qed
  next
    case False
    note npos = this
    show ?thesis
    proof (cases "cmd = ''pid''")
      case True
      show ?thesis
      proof (cases "api (trace s @ [Publish ''map.pid'' args])")
        case None
        with True npos unfold step [of "Publish ''map.pid'' args"] show ?thesis by simp
      next
        case (Some e)
        with True npos unfold
        have "\<forall>q. pass_outgoing_cmd_loop api (s\<lparr>queue_to_ui := q\<rparr>) =
                (s\<lparr>queue_to_ui := q,
                   queue_out := (queue_out s)\<lparr>items := take (length xs) (items (queue_out s))\<rparr>,
                   trace := trace s @ [Publish ''map.pid'' args]\<rparr>, e)"
          by simp
        then show ?thesis by blast
      qed
    next
      case False
      with npos unfold
        step [of "LogWarning (''Unknown command: '' @ cmd @ '', ignoring'')"]
      show ?thesis by simp
    qed
  qed
qed


lemma pass_frame:
  "\<exists>k tr r. \<forall>q. pass_outgoing_cmd api (s\<lparr>queue_to_ui := q\<rparr>) =
     (s\<lparr>queue_to_ui := q,
        queue_out := (queue_out s)\<lparr>items := take k (items (queue_out s))\<rparr>,
        trace := tr\<rparr>, r)"
proof -
  from loop_frame [of api s] obtain k tr e where
    l: "\<And>q. pass_outgoing_cmd_loop api (s\<lparr>queue_to_ui := q\<rparr>) =
     (s\<lparr>queue_to_ui := q,
        queue_out := (queue_out s)\<lparr>items := take k (items (queue_out s))\<rparr>,
        trace := tr\<rparr>, e)"
    by blast
  have "\<forall>q. pass_outgoing_cmd api (s\<lparr>queue_to_ui := q\<rparr>) =
     (s\<lparr>queue_to_ui := q,
        queue_out := (queue_out s)\<lparr>items := take k (items (queue_out s))\<rparr>,
        trace := tr\<rparr>, if e = IndexError then None else Some e)"
    by (cases e) (simp_all add: pass_outgoing_cmd_def l)
  then show ?thesis by blast
qed

lemma telemetry_frame:
  "\<exists>vs tr. \<forall>q. on_sim_telemetry telemetry (s\<lparr>queue_to_ui := q\<rparr>) =
     (s\<lparr>queue_to_ui := foldl deque_append q vs, trace := tr\<rparr>, None)"
proof (cases "telemetry ''latitude-deg'' = None \<or> telemetry ''longitude-deg'' = None
         \<or> telemetry ''heading-deg'' = None")
  case True
  let ?k = "if telemetry ''latitude-deg'' = None then ''latitude-deg''
            else if telemetry ''longitude-deg'' = None then ''longitude-deg''
            else ''heading-deg''"
  have "\<forall>q. on_sim_telemetry telemetry (s\<lparr>queue_to_ui := q\<rparr>) =
     (s\<lparr>queue_to_ui := foldl deque_append q [], trace := trace s @ [LogError (KeyError ?k)]\<rparr>, None)"
    by (simp add: telemetry_missing [OF True])
  then show ?thesis by blast
next
  case False
  then obtain lat lng heading where
    t: "telemetry ''latitude-deg'' = Some lat" "telemetry ''longitude-deg'' = Some lng"
       "telemetry ''heading-deg'' = Some heading"
    by auto
  have "\<forall>q. on_sim_telemetry telemetry (s\<lparr>queue_to_ui := q\<rparr>) =
     (s\<lparr>queue_to_ui := foldl deque_append q [(lat, lng, heading)], trace := trace s\<rparr>, None)"
    by (simp add: telemetry_ok [OF t])
  then show ?thesis by blast
qed

lemma deliver_frame:
  "\<exists>vs tr. \<forall>q. deliver batch (s\<lparr>queue_to_ui := q\<rparr>) =
     s\<lparr>queue_to_ui := foldl deque_append q vs, trace := tr\<rparr>"
proof (induction batch arbitrary: s)
  case Nil
  have "\<forall>q. deliver [] (s\<lparr>queue_to_ui := q\<rparr>) =
     s\<lparr>queue_to_ui := foldl deque_append q [], trace := trace s\<rparr>"
    by (simp add: deliver_def)
  then show ?case by blast
next
  case (Cons t ts)
  from telemetry_frame [of t s] obtain vs1 tr1 where
    a: "\<And>q. on_sim_telemetry t (s\<lparr>queue_to_ui := q\<rparr>) =
     (s\<lparr>queue_to_ui := foldl deque_append q vs1, trace := tr1\<rparr>, None)"
    by blast
  from Cons.IH [of "s\<lparr>trace := tr1\<rparr>"] obtain vs2 tr2 where
    b: "\<And>q. deliver ts (s\<lparr>trace := tr1, queue_to_ui := q\<rparr>) =
     s\<lparr>trace := tr1, queue_to_ui := foldl deque_append q vs2, trace := tr2\<rparr>"
    by auto
  have "\<forall>q. deliver (t # ts) (s\<lparr>queue_to_ui := q\<rparr>) =
     s\<lparr>queue_to_ui := foldl deque_append q (vs1 @ vs2), trace := tr2\<rparr>"
  proof
    fix q
    have "deliver (t # ts) (s\<lparr>queue_to_ui := q\<rparr>) =
            deliver ts (s\<lparr>queue_to_ui := foldl deque_append q vs1, trace := tr1\<rparr>)"
      by (simp add: deliver_def a)
    also have "\<dots> = deliver ts (s\<lparr>trace := tr1, queue_to_ui := foldl deque_append q vs1\<rparr>)"
      by (rule arg_cong [where f = "deliver ts"]) simp
    also have "\<dots> = s\<lparr>trace := tr1, queue_to_ui := foldl deque_append (foldl deque_append q vs1) vs2,
                        trace := tr2\<rparr>"
      by (rule b)
    finally show "deliver (t # ts) (s\<lparr>queue_to_ui := q\<rparr>) =
       s\<lparr>queue_to_ui := foldl deque_append q (vs1 @ vs2), trace := tr2\<rparr>"
      by simp
  qed
  then show ?case by blast
qed


lemma onJoin_loop_frame:
  "\<exists>vs k tr r. \<forall>q. onJoin_loop api (s\<lparr>queue_to_ui := q\<rparr>) batches =
     (s\<lparr>queue_to_ui := foldl deque_append q vs,
        queue_out := (queue_out s)\<lparr>items := take k (items (queue_out s))\<rparr>,
        trace := tr\<rparr>, r)"
proof (induction batches arbitrary: s)
  case Nil
  have "\<forall>q. onJoin_loop api (s\<lparr>queue_to_ui := q\<rparr>) [] =
     (s\<lparr>queue_to_ui := foldl deque_append q [],
        queue_out := (queue_out s)\<lparr>items := take (length (items (queue_out s))) (items (queue_out s))\<rparr>,
        trace := trace s\<rparr>, if is_running s then Pending else Done)"
    by simp
  then show ?case by blast
next
  case (Cons b bs)
  show ?case
  proof (cases "is_running s")
    case False
    then have "\<forall>q. onJoin_loop api (s\<lparr>queue_to_ui := q\<rparr>) (b # bs) =
     (s\<lparr>queue_to_ui := foldl deque_append q [],
        queue_out := (queue_out s)\<lparr>items := take (length (items (queue_out s))) (items (queue_out s))\<rparr>,
        trace := trace s\<rparr>, Done)"
      by simp
    then show ?thesis by blast
  next
    case True
    from pass_frame [of api s] obtain k1 tr1 r1 where
      p: "\<And>q. pass_outgoing_cmd api (s\<lparr>queue_to_ui := q\<rparr>) =
         (s\<lparr>queue_to_ui := q,
            queue_out := (queue_out s)\<lparr>items := take k1 (items (queue_out s))\<rparr>,
            trace := tr1\<rparr>, r1)"
      by blast
    let ?Q1 = "(queue_out s)\<lparr>items := take k1 (items (queue_out s))\<rparr>"
    show ?thesis
    proof (cases r1)
      case (Some e)
      with True p have "\<forall>q. onJoin_loop api (s\<lparr>queue_to_ui := q\<rparr>) (b # bs) =
         (s\<lparr>queue_to_ui := foldl deque_append q [], queue_out := ?Q1, trace := tr1\<rparr>, Raised e)"
        by simp
      then show ?thesis by blast
    next
      case None
      let ?s1 = "s\<lparr>queue_out := ?Q1, trace := tr1\<rparr>"
      from deliver_frame [of b ?s1] obtain vs2 tr2 where
        d: "\<And>q. deliver b (?s1\<lparr>queue_to_ui := q\<rparr>) =
              ?s1\<lparr>queue_to_ui := foldl deque_append q vs2, trace := tr2\<rparr>"
        by blast
      let ?s2 = "s\<lparr>queue_out := ?Q1, trace := tr2\<rparr>"
      from Cons.IH [of ?s2] obtain vs3 k3 tr3 r3 where
        i: "\<And>q. onJoin_loop api (?s2\<lparr>queue_to_ui := q\<rparr>) bs =
              (?s2\<lparr>queue_to_ui := foldl deque_append q vs3,
                  queue_out := (queue_out ?s2)\<lparr>items := take k3 (items (queue_out ?s2))\<rparr>,
                  trace := tr3\<rparr>, r3)"
        by blast
      have "\<forall>q. onJoin_loop api (s\<lparr>queue_to_ui := q\<rparr>) (b # bs) =
         (s\<lparr>queue_to_ui := foldl deque_append q (vs2 @ vs3),
            queue_out := (queue_out s)\<lparr>items := take (min k3 k1) (items (queue_out s))\<rparr>,
            trace := tr3\<rparr>, r3)"
      proof
        fix q
        have e1: "s\<lparr>queue_to_ui := q, queue_out := ?Q1, trace := tr1\<rparr> = ?s1\<lparr>queue_to_ui := q\<rparr>"
          by simp
        have e2: "?s1\<lparr>queue_to_ui := foldl deque_append q vs2, trace := tr2\<rparr>
                    = ?s2\<lparr>queue_to_ui := foldl deque_append q vs2\<rparr>"
          by simp
        have "onJoin_loop api (s\<lparr>queue_to_ui := q\<rparr>) (b # bs) =
                onJoin_loop api (deliver b (s\<lparr>queue_to_ui := q, queue_out := ?Q1, trace := tr1\<rparr>)) bs"
          using True None by (simp add: p)
        also have "\<dots> = onJoin_loop api (?s2\<lparr>queue_to_ui := foldl deque_append q vs2\<rparr>) bs"
          unfolding e1 d e2 by (rule refl)
        also have "\<dots> = (?s2\<lparr>queue_to_ui := foldl deque_append (foldl deque_append q vs2) vs3,
                  queue_out := (queue_out ?s2)\<lparr>items := take k3 (items (queue_out ?s2))\<rparr>,
                  trace := tr3\<rparr>, r3)"
          by (rule i)
        finally show "onJoin_loop api (s\<lparr>queue_to_ui := q\<rparr>) (b # bs) =
           (s\<lparr>queue_to_ui := foldl deque_append q (vs2 @ vs3),
              queue_out := (queue_out s)\<lparr>items := take (min k3 k1) (items (queue_out s))\<rparr>,
              trace := tr3\<rparr>, r3)"
          by simp
      qed
      then show ?thesis by blast
    qed
  qed
qed

lemma onJoin_frame:
  "\<exists>vs k b tr r. \<forall>q. onJoin api (s\<lparr>queue_to_ui := q\<rparr>) batches =
     (s\<lparr>queue_to_ui := foldl deque_append q vs,
        queue_out := (queue_out s)\<lparr>items := take k (items (queue_out s))\<rparr>,
        is_running := b, trace := tr\<rparr>, r)"
proof -
  let ?n = "length (items (queue_out s))"
  let ?t1 = "trace s @ [Register]"
  let ?t2 = "trace s @ [Register, Subscribe ''sim.telemetry'']"
  show ?thesis
  proof (cases "api ?t1")
    case (Some e)
    then have "\<forall>q. onJoin api (s\<lparr>queue_to_ui := q\<rparr>) batches =
       (s\<lparr>queue_to_ui := foldl deque_append q [],
          queue_out := (queue_out s)\<lparr>items := take ?n (items (queue_out s))\<rparr>,
          is_running := is_running s, trace := ?t1\<rparr>, Raised e)"
      by (simp add: onJoin_def session_call_def)
    then show ?thesis by blast
  next
    case None
    note reg = this
    show ?thesis
    proof (cases "api ?t2")
      case (Some e)
      with reg have "\<forall>q. onJoin api (s\<lparr>queue_to_ui := q\<rparr>) batches =
         (s\<lparr>queue_to_ui := foldl deque_append q [],
            queue_out := (queue_out s)\<lparr>items := take ?n (items (queue_out s))\<rparr>,
            is_running := is_running s, trace := ?t2\<rparr>, Raised e)"
        by (simp add: onJoin_def session_call_def)
      then show ?thesis by blast
    next
      case None
      let ?s2 = "s\<lparr>is_running := True, trace := ?t2\<rparr>"
      from onJoin_loop_frame [of api ?s2 batches] obtain vs k tr r where
        l: "\<And>q. onJoin_loop api (?s2\<lparr>queue_to_ui := q\<rparr>) batches =
             (?s2\<lparr>queue_to_ui := foldl deque_append q vs,
                 queue_out := (queue_out ?s2)\<lparr>items := take k (items (queue_out ?s2))\<rparr>,
                 trace := tr\<rparr>, r)"
        by blast
      have "\<forall>q. onJoin api (s\<lparr>queue_to_ui := q\<rparr>) batches =
         (s\<lparr>queue_to_ui := foldl deque_append q vs,
            queue_out := (queue_out s)\<lparr>items := take k (items (queue_out s))\<rparr>,
            is_running := True, trace := tr\<rparr>, r)"
      proof
        fix q
        have e: "s\<lparr>queue_to_ui := q, trace := ?t2, is_running := True\<rparr> = ?s2\<lparr>queue_to_ui := q\<rparr>"
          by simp
        have "onJoin api (s\<lparr>queue_to_ui := q\<rparr>) batches =
                onJoin_loop api (s\<lparr>queue_to_ui := q, trace := ?t2, is_running := True\<rparr>) batches"
          using reg None by (simp add: onJoin_def session_call_def)
        also have "\<dots> = (?s2\<lparr>queue_to_ui := foldl deque_append q vs,
                 queue_out := (queue_out ?s2)\<lparr>items := take k (items (queue_out ?s2))\<rparr>,
                 trace := tr\<rparr>, r)"
          unfolding e by (rule l)
        finally show "onJoin api (s\<lparr>queue_to_ui := q\<rparr>) batches =
         (s\<lparr>queue_to_ui := foldl deque_append q vs,
            queue_out := (queue_out s)\<lparr>items := take k (items (queue_out s))\<rparr>,
            is_running := True, trace := tr\<rparr>, r)"
          by simp
      qed
      then show ?thesis by blast
    qed
  qed
qed

text \<open>
  C9. \<open>on_sim_telemetry\<close>, \<open>pass_outgoing_cmd\<close> and \<open>onJoin\<close> (registration, subscription
  and the periodic loop, with the telemetry handled between iterations) only pop from
  \<open>queue_out\<close> and only append to \<open>queue_to_ui\<close>: afterwards \<open>queue_out\<close> holds a prefix of
  its former items and nothing new, \<open>queue_to_ui\<close> is its former content after
  \<open>append\<close> calls, and neither the appended values nor anything else in the result
  depends on what \<open>queue_to_ui\<close> held, so it is never read.
\<close>

theorem core_slot_discipline:
  "(\<exists>vs tr. \<forall>q. on_sim_telemetry telemetry (s\<lparr>queue_to_ui := q\<rparr>) =
       (s\<lparr>queue_to_ui := foldl deque_append q vs, trace := tr\<rparr>, None))
 \<and> (\<exists>k tr r. \<forall>q. pass_outgoing_cmd api (s\<lparr>queue_to_ui := q\<rparr>) =
       (s\<lparr>queue_to_ui := q,
          queue_out := (queue_out s)\<lparr>items := take k (items (queue_out s))\<rparr>,
          trace := tr\<rparr>, r))
 \<and> (\<exists>vs k b tr r. \<forall>q. onJoin api (s\<lparr>queue_to_ui := q\<rparr>) batches =
       (s\<lparr>queue_to_ui := foldl deque_append q vs,
          queue_out := (queue_out s)\<lparr>items := take k (items (queue_out s))\<rparr>,
          is_running := b, trace := tr\<rparr>, r))"
  using telemetry_frame [of telemetry s] pass_frame [of api s] onJoin_frame [of api s batches]
  by (intro conjI)

end
